theory Spec2Isabelle
  imports Main "HOL-Library.Sublist"
begin

section \<open>Strings and arrays of the host language\<close>

text \<open>
  The program is TypeScript. Its strings are modelled as \<^typ>\<open>string\<close>, one list element per
  code unit; the line terminators among the representable code units are line feed and carriage
  return. Its numbers are modelled as \<^typ>\<open>int\<close>: every number the two functions compute
  is an integer, and the model is exact as long as the integers stay below \<open>2 ^ 53\<close>.
\<close>

abbreviation nl :: char where
  "nl \<equiv> CHR 0x0A"

abbreviation cr :: char where
  "cr \<equiv> CHR 0x0D"

abbreviation dquote :: char where
  "dquote \<equiv> CHR 0x22"

abbreviation backslash :: char where
  "backslash \<equiv> CHR 0x5C"

text \<open>\<open>s.startsWith(p)\<close>, \<open>s.str_includes(p)\<close> and \<open>s.substring(1)\<close>.\<close>

definition startsWith :: "string \<Rightarrow> string \<Rightarrow> bool" where
  "startsWith p s = prefix p s"

fun str_includes :: "string \<Rightarrow> string \<Rightarrow> bool" where
  "str_includes p [] = (p = [])"
| "str_includes p (c # cs) = (prefix p (c # cs) \<or> str_includes p cs)"

definition substring1 :: "string \<Rightarrow> string" where
  "substring1 s = drop 1 s"

text \<open>
  \<open>s.split(sep)\<close> for a non-empty separator: the pieces between the occurrences of \<open>sep\<close>,
  found from left to right without overlap. The result always has at least one piece.
\<close>

fun cons_first :: "char \<Rightarrow> string list \<Rightarrow> string list" where
  "cons_first c [] = [[c]]"
| "cons_first c (p # ps) = (c # p) # ps"

function jsplit :: "string \<Rightarrow> string \<Rightarrow> string list" where
  "jsplit sep [] = [[]]"
| "jsplit sep (c # cs) =
     (if sep \<noteq> [] \<and> prefix sep (c # cs)
      then [] # jsplit sep (drop (length sep) (c # cs))
      else cons_first c (jsplit sep cs))"
  by pat_completeness auto
termination
  by (relation "measure (\<lambda>(sep, s). length s)") (auto simp: neq_Nil_conv)

text \<open>\<open>xs.join(sep)\<close>.\<close>

fun join :: "string \<Rightarrow> string list \<Rightarrow> string" where
  "join sep [] = []"
| "join sep [x] = x"
| "join sep (x # y # ys) = x @ sep @ join sep (y # ys)"

text \<open>
  \<open>xs.splice(start, deleteCount, ...items)\<close>, as the language defines it: a negative
  \<open>start\<close> counts from the end, \<open>start\<close> and \<open>deleteCount\<close> are clamped to the array.
  The model returns the array after the call.
\<close>

definition splice :: "'a list \<Rightarrow> int \<Rightarrow> int \<Rightarrow> 'a list \<Rightarrow> 'a list" where
  "splice xs start deleteCount items =
     (let len = int (length xs);
          actualStart = (if start < 0 then max (len + start) 0 else min start len);
          actualDeleteCount = min (max deleteCount 0) (len - actualStart)
      in take (nat actualStart) xs @ items @ drop (nat (actualStart + actualDeleteCount)) xs)"

section \<open>Data model\<close>

datatype FileType = File | Directory | Binary

record hunk =
  oldStartLine :: int
  oldLineCount :: int
  newStartLine :: int
  newLineCount :: int
  content :: string

record FileChange =
  filePath :: string
  fileType :: FileType
  isNew :: bool
  isDeleted :: bool
  hunks :: "hunk list"

section \<open>applyPatchToContent\<close>

text \<open>
  \<open>[...change.hunks].sort((a, b) => b.oldStartLine - a.oldStartLine)\<close>: the sort of the
  language is stable, so this is the stable sort by descending \<open>oldStartLine\<close>.
\<close>

definition sortedHunks :: "hunk list \<Rightarrow> hunk list" where
  "sortedHunks hs = sort_key (\<lambda>h. - oldStartLine h) hs"

text \<open>The inner loop over the lines of a hunk's content.\<close>

fun linesToInsert :: "string list \<Rightarrow> string list" where
  "linesToInsert [] = []"
| "linesToInsert (hunkLine # rest) =
     (if startsWith ''+'' hunkLine then substring1 hunkLine # linesToInsert rest
      else if startsWith ''-'' hunkLine \<or> startsWith [backslash] hunkLine then linesToInsert rest
      else substring1 hunkLine # linesToInsert rest)"

text \<open>One iteration of the loop over the sorted hunks.\<close>

definition applyHunk :: "string list \<Rightarrow> hunk \<Rightarrow> string list" where
  "applyHunk lines h =
     splice lines (oldStartLine h - 1) (oldLineCount h) (linesToInsert (jsplit [nl] (content h)))"

definition applyPatchToContent :: "string \<Rightarrow> FileChange \<Rightarrow> string" where
  "applyPatchToContent originalContent change =
     join [nl] (foldl applyHunk (jsplit [nl] originalContent) (sortedHunks (hunks change)))"

section \<open>parsePatchFile\<close>

subsection \<open>The three regular expressions\<close>

text \<open>
  In a regular expression of the language, \<open>.\<close> matches every character except a line
  terminator, \<open>\d\<close> matches the ten decimal digits, a quantifier is greedy, and an
  unanchored expression matches at the leftmost position where a match exists.
\<close>

definition isDot :: "char \<Rightarrow> bool" where
  "isDot c = (c \<noteq> nl \<and> c \<noteq> cr)"

definition isDigit :: "char \<Rightarrow> bool" where
  "isDigit c = (c \<in> set ''0123456789'')"

text \<open>
  \<open>/a\/(.*) b\/(.*)/\<close>. \<open>ab_rest\<close> matches \<open>(.*) b\/(.*)\<close> at the start of its
  argument and returns the second group: the first group is tried longest first, the second
  group is the longest run of \<open>.\<close>. \<open>match_ab\<close> looks for the leftmost \<open>a/\<close> after which
  \<open>ab_rest\<close> matches.
\<close>

fun ab_rest :: "string \<Rightarrow> string option" where
  "ab_rest [] = None"
| "ab_rest (c # cs) =
     (case (if isDot c then ab_rest cs else None) of
        Some g \<Rightarrow> Some g
      | None \<Rightarrow> if prefix '' b/'' (c # cs) then Some (takeWhile isDot (drop 3 (c # cs))) else None)"

fun match_ab :: "string \<Rightarrow> string option" where
  "match_ab [] = None"
| "match_ab (c # cs) =
     (case (if prefix ''a/'' (c # cs) then ab_rest (drop 2 (c # cs)) else None) of
        Some g \<Rightarrow> Some g
      | None \<Rightarrow> match_ab cs)"

text \<open>
  \<open>/\"(.*)\" \"(.*)\"/\<close>. \<open>until_quote\<close> matches \<open>(.*)\"\<close> and returns the group;
  \<open>quoted_rest\<close> matches \<open>(.*)\" \"(.*)\"\<close> and returns the second group.
\<close>

fun until_quote :: "string \<Rightarrow> string option" where
  "until_quote [] = None"
| "until_quote (c # cs) =
     (case (if isDot c then until_quote cs else None) of
        Some g \<Rightarrow> Some (c # g)
      | None \<Rightarrow> if c = dquote then Some [] else None)"

fun quoted_rest :: "string \<Rightarrow> string option" where
  "quoted_rest [] = None"
| "quoted_rest (c # cs) =
     (case (if isDot c then quoted_rest cs else None) of
        Some g \<Rightarrow> Some g
      | None \<Rightarrow>
          if prefix [dquote, CHR '' '', dquote] (c # cs) then until_quote (drop 3 (c # cs))
          else None)"

fun match_quoted :: "string \<Rightarrow> string option" where
  "match_quoted [] = None"
| "match_quoted (c # cs) =
     (case (if c = dquote then quoted_rest cs else None) of
        Some g \<Rightarrow> Some g
      | None \<Rightarrow> match_quoted cs)"

text \<open>
  \<open>/@@ -(\d+)(?:,(\d+))? \+(\d+)(?:,(\d+))? @@/\<close>. Every \<open>\d+\<close> is followed in the
  pattern by a character that is not a digit, so only the longest run of digits can lead to a
  match; an optional group that can match must match, since what follows it in the pattern
  does not start with a comma. The result is the four groups, \<open>None\<close> for a group that did
  not take part.
\<close>

definition matchNum :: "string \<Rightarrow> (string \<times> string) option" where
  "matchNum s =
     (if takeWhile isDigit s = [] then None
      else Some (takeWhile isDigit s, dropWhile isDigit s))"

definition matchOptCount :: "string \<Rightarrow> string option \<times> string" where
  "matchOptCount s =
     (if prefix '','' s
      then (case matchNum (drop 1 s) of None \<Rightarrow> (None, s) | Some (d, r) \<Rightarrow> (Some d, r))
      else (None, s))"

definition hunkHeaderAt ::
  "string \<Rightarrow> (string \<times> string option \<times> string \<times> string option) option" where
  "hunkHeaderAt s =
     (if prefix ''@@ -'' s then
        (case matchNum (drop 4 s) of
           None \<Rightarrow> None
         | Some (g1, r1) \<Rightarrow>
             (case matchOptCount r1 of (g2, r2) \<Rightarrow>
                if prefix '' +'' r2 then
                  (case matchNum (drop 2 r2) of
                     None \<Rightarrow> None
                   | Some (g3, r3) \<Rightarrow>
                       (case matchOptCount r3 of (g4, r4) \<Rightarrow>
                          if prefix '' @@'' r4 then Some (g1, g2, g3, g4) else None))
                else None))
      else None)"

fun hunkHeaderMatch ::
  "string \<Rightarrow> (string \<times> string option \<times> string \<times> string option) option" where
  "hunkHeaderMatch [] = None"
| "hunkHeaderMatch (c # cs) =
     (case hunkHeaderAt (c # cs) of Some m \<Rightarrow> Some m | None \<Rightarrow> hunkHeaderMatch cs)"

text \<open>
  \<open>parseInt(s, 10)\<close> on a non-empty string of digits. The value of a digit is its
  position in the string of the ten digits.
\<close>

definition digitVal :: "char \<Rightarrow> int" where
  "digitVal c = int (length (takeWhile (\<lambda>d. d \<noteq> c) ''0123456789''))"

definition parseInt10 :: "string \<Rightarrow> int" where
  "parseInt10 s = foldl (\<lambda>n c. 10 * n + digitVal c) 0 s"

subsection \<open>The header scan\<close>

text \<open>
  The loop \<open>for (j = 1; j < Math.min(lines.length, 10); j++)\<close> runs over
  \<open>take 9 (drop 1 lines)\<close>; its state is \<open>(fileType, isNew, isDeleted)\<close>, and the two
  \<open>break\<close>s end it.
\<close>

fun scanHeader :: "string list \<Rightarrow> FileType \<times> bool \<times> bool \<Rightarrow> FileType \<times> bool \<times> bool" where
  "scanHeader [] st = st"
| "scanHeader (line # rest) (ft, new, deleted) =
     (let new' = (new \<or> str_includes ''new file mode'' line);
          deleted' = (deleted \<or> str_includes ''deleted file mode'' line)
      in if str_includes ''Binary files'' line then (Binary, new', deleted')
         else if str_includes ''old mode'' line \<and> str_includes ''new mode'' line \<and>
                 (str_includes ''040000'' line \<or> str_includes ''160000'' line)
         then (Directory, new', deleted')
         else scanHeader rest (ft, new', deleted'))"

subsection \<open>The hunk scan\<close>

text \<open>\<open>s.replace(/\n$/, '')\<close>: one line feed at the very end of the string is removed.\<close>

definition stripNl :: "string \<Rightarrow> string" where
  "stripNl s = (if s \<noteq> [] \<and> last s = nl then butlast s else s)"

text \<open>
  The state of the loop \<open>for (j = 1; j < lines.length; j++)\<close>: \<open>inHunk\<close>,
  \<open>currentHunk\<close> and the array \<open>hunks\<close>. \<open>hunkStep\<close> is one iteration. The assignment
  \<open>currentHunk.content = currentHunk.content.replace(...)\<close> changes \<open>currentHunk\<close> itself,
  and \<open>hunks.push({ ...currentHunk })\<close> appends a copy of it.
\<close>

type_synonym hunkState = "bool \<times> hunk \<times> hunk list"

definition closeHunk :: "hunkState \<Rightarrow> hunkState" where
  "closeHunk st =
     (case st of (inHunk, currentHunk, hs) \<Rightarrow>
        if inHunk
        then (inHunk, currentHunk\<lparr>content := stripNl (content currentHunk)\<rparr>,
              hs @ [currentHunk\<lparr>content := stripNl (content currentHunk)\<rparr>])
        else st)"

definition hunkStep :: "hunkState \<Rightarrow> string \<Rightarrow> hunkState" where
  "hunkStep st line =
     (if startsWith ''@@'' line then
        (case closeHunk st of (inHunk, currentHunk, hs) \<Rightarrow>
           (case hunkHeaderMatch line of
              None \<Rightarrow> (inHunk, currentHunk, hs)
            | Some (g1, g2, g3, g4) \<Rightarrow>
                (True,
                 \<lparr>oldStartLine = parseInt10 g1,
                  oldLineCount = (case g2 of None \<Rightarrow> 1 | Some d \<Rightarrow> parseInt10 d),
                  newStartLine = parseInt10 g3,
                  newLineCount = (case g4 of None \<Rightarrow> 1 | Some d \<Rightarrow> parseInt10 d),
                  content = []\<rparr>,
                 hs)))
      else
        (case st of (inHunk, currentHunk, hs) \<Rightarrow>
           if inHunk then (inHunk, currentHunk\<lparr>content := content currentHunk @ line @ [nl]\<rparr>, hs)
           else st))"

definition initialHunk :: hunk where
  "initialHunk =
     \<lparr>oldStartLine = 0, oldLineCount = 0, newStartLine = 0, newLineCount = 0, content = []\<rparr>"

definition findHunks :: "string list \<Rightarrow> hunk list" where
  "findHunks ls = snd (snd (closeHunk (foldl hunkStep (False, initialHunk, []) ls)))"

subsection \<open>One file segment, and the whole text\<close>

text \<open>
  \<open>lines[0].match(...)\<close> raises a \<open>TypeError\<close> when \<open>lines\<close> is empty, since
  \<open>lines[0]\<close> is then \<open>undefined\<close>. Nothing else in the function can raise.
\<close>

datatype error = TypeError

definition filePathMatch :: "string \<Rightarrow> string option" where
  "filePathMatch line0 =
     (case match_ab line0 of Some p \<Rightarrow> Some p | None \<Rightarrow> match_quoted line0)"

text \<open>
  The body of the loop over the segments after \<open>lines.pop()\<close>: \<open>Inl\<close> is the exception,
  \<open>Inr None\<close> is \<open>continue\<close> without a record, \<open>Inr (Some r)\<close> is the record pushed.
\<close>

definition parseLines :: "string list \<Rightarrow> error + FileChange option" where
  "parseLines lines =
     (case lines of
        [] \<Rightarrow> Inl TypeError
      | line0 # others \<Rightarrow>
          (case filePathMatch line0 of
             None \<Rightarrow> Inr None
           | Some targetFilePath \<Rightarrow>
               (case scanHeader (take 9 others) (File, False, False) of
                  (ft, new, deleted) \<Rightarrow>
                    if ft = Directory \<or> ft = Binary
                    then Inr (Some \<lparr>filePath = targetFilePath, fileType = ft, isNew = new,
                                    isDeleted = deleted, hunks = []\<rparr>)
                    else Inr (Some \<lparr>filePath = targetFilePath, fileType = ft, isNew = new,
                                    isDeleted = deleted, hunks = findHunks others\<rparr>))))"

definition parseSegment :: "string \<Rightarrow> error + FileChange option" where
  "parseSegment diffContent = parseLines (butlast (jsplit [nl] diffContent))"

text \<open>
  The loop over \<open>diffFiles[1]\<close>, \<open>diffFiles[2]\<close>, ...: an exception in one segment ends the
  whole call, otherwise the records are collected in order.
\<close>

fun parseSegments :: "string list \<Rightarrow> error + FileChange list" where
  "parseSegments [] = Inr []"
| "parseSegments (diffContent # rest) =
     (case parseSegment diffContent of
        Inl e \<Rightarrow> Inl e
      | Inr r \<Rightarrow>
          (case parseSegments rest of
             Inl e \<Rightarrow> Inl e
           | Inr fileChanges \<Rightarrow> Inr ((case r of None \<Rightarrow> [] | Some fc \<Rightarrow> [fc]) @ fileChanges)))"

definition parsePatchFile :: "string \<Rightarrow> error + FileChange list" where
  "parsePatchFile patchContent = parseSegments (drop 1 (jsplit ''diff --git'' patchContent))"

section \<open>Per-hunk splicing against the original line numbering\<close>

text \<open>
  What the specification prescribes for a list of hunks given in ascending order of
  \<open>oldStartLine\<close>: every hunk replaces the lines \<open>oldStartLine - 1\<close> up to
  \<open>oldStartLine - 1 + oldLineCount\<close> of the original file, counted in the original file, and
  the lines between the hunks are kept. \<open>pos\<close> is the number of original lines already
  consumed.
\<close>

fun prescribed :: "string list \<Rightarrow> nat \<Rightarrow> hunk list \<Rightarrow> string list" where
  "prescribed ls pos [] = drop pos ls"
| "prescribed ls pos (h # hs) =
     take (nat (oldStartLine h - 1) - pos) (drop pos ls) @
     linesToInsert (jsplit [nl] (content h)) @
     prescribed ls (nat (oldStartLine h - 1 + oldLineCount h)) hs"

text \<open>
  The hunks, in ascending order, lie in a file of \<open>len\<close> lines from line index \<open>pos\<close> on and
  do not overlap.
\<close>

fun inRange :: "nat \<Rightarrow> nat \<Rightarrow> hunk list \<Rightarrow> bool" where
  "inRange len pos [] = (pos \<le> len)"
| "inRange len pos (h # hs) =
     (int pos \<le> oldStartLine h - 1 \<and> 0 \<le> oldLineCount h \<and>
      inRange len (nat (oldStartLine h - 1 + oldLineCount h)) hs)"

section \<open>Facts about \<open>split\<close> and \<open>join\<close>\<close>

lemma cons_first_not_Nil [simp]: "cons_first c ps \<noteq> []"
  by (cases ps) auto

lemma jsplit_not_Nil [simp]: "jsplit sep s \<noteq> []"
  by (cases s) auto

lemma join_cons_first: "ps \<noteq> [] \<Longrightarrow> join sep (cons_first c ps) = c # join sep ps"
  by (cases ps; cases "tl ps") auto

lemma join_Cons_ne: "ps \<noteq> [] \<Longrightarrow> join sep (p # ps) = p @ sep @ join sep ps"
  by (cases ps) auto

text \<open>Joining the pieces of a split gives the string back.\<close>

lemma join_jsplit: "join sep (jsplit sep s) = s"
proof (induction sep s rule: jsplit.induct)
  case (1 sep)
  then show ?case by simp
next
  case (2 sep c cs)
  show ?case
  proof (cases "sep \<noteq> [] \<and> prefix sep (c # cs)")
    case True
    then have "c # cs = sep @ drop (length sep) (c # cs)"
      by (metis append_eq_conv_conj prefixE)
    with True 2 show ?thesis
      by (simp add: join_Cons_ne del: drop_Suc_Cons)
  next
    case False
    with 2 show ?thesis
      by (auto simp: join_cons_first)
  qed
qed

lemma cons_first_append: "ps \<noteq> [] \<Longrightarrow> cons_first c (ps @ qs) = cons_first c ps @ qs"
  by (cases ps) auto

lemma jsplit_nl_append: "jsplit [nl] (a @ nl # b) = jsplit [nl] a @ jsplit [nl] b"
  by (induction a) (auto simp: cons_first_append)

lemma jsplit_no_nl: "nl \<notin> set t \<Longrightarrow> jsplit [nl] t = [t]"
  by (induction t) auto

section \<open>The two fixtures of the specification\<close>

text \<open>
  Claim C2. \<open>applyPatchToContent\<close> on the original text \<open>a\nb\ne\n\<close> and a change of kind
  \<open>file\<close> whose only hunk is \<open>@@ -1,3 +1,4 @@\<close> with the body lines context \<open>a\<close>,
  removed \<open>b\<close>, added \<open>c\<close>, added \<open>d\<close>, context \<open>e\<close> returns exactly \<open>a\nc\nd\ne\n\<close>.
\<close>

theorem apply_fixture:
  "applyPatchToContent ''a\<newline>b\<newline>e\<newline>''
     \<lparr>filePath = ''f.txt'', fileType = File, isNew = False, isDeleted = False,
      hunks = [\<lparr>oldStartLine = 1, oldLineCount = 3, newStartLine = 1, newLineCount = 4,
                content = '' a\<newline>-b\<newline>+c\<newline>+d\<newline> e''\<rparr>]\<rparr>
   = ''a\<newline>c\<newline>d\<newline>e\<newline>''"
  by code_simp

text \<open>
  Claim C3. \<open>parsePatchFile\<close> on a diff of one file whose segment holds the hunk header
  \<open>@@ -1,3 +1,4 @@\<close> and then the body lines \<open> a\<close>, \<open>-b\<close>, \<open>+c\<close>, \<open>+d\<close>, \<open> e\<close>
  returns one record with exactly one hunk, whose numbers are 1, 3, 1, 4 and whose body is,
  in order, the five tagged lines: context \<open>a\<close>, removed \<open>b\<close>, added \<open>c\<close>, added \<open>d\<close>,
  context \<open>e\<close>. The parser keeps the body as the raw lines joined by line feeds, the tag
  being the first character of each line.
\<close>

theorem parse_fixture:
  "parsePatchFile
     ''diff --git a/f.txt b/f.txt\<newline>index 83db48f..bf269f4 100644\<newline>--- a/f.txt\<newline>+++ b/f.txt\<newline>@@ -1,3 +1,4 @@\<newline> a\<newline>-b\<newline>+c\<newline>+d\<newline> e\<newline>''
   = Inr [\<lparr>filePath = ''f.txt'', fileType = File, isNew = False, isDeleted = False,
           hunks = [\<lparr>oldStartLine = 1, oldLineCount = 3, newStartLine = 1, newLineCount = 4,
                     content = '' a\<newline>-b\<newline>+c\<newline>+d\<newline> e''\<rparr>]\<rparr>]
   \<and> jsplit [nl] '' a\<newline>-b\<newline>+c\<newline>+d\<newline> e'' = ['' a'', ''-b'', ''+c'', ''+d'', '' e'']"
  by code_simp

section \<open>The applier: splicing inside the array\<close>

lemma splice_in_range:
  "i + c \<le> length xs \<Longrightarrow> splice xs (int i) (int c) items = take i xs @ items @ drop (i + c) xs"
  by (simp add: splice_def Let_def min_def max_def nat_add_distrib)

lemma linesToInsert_context:
  "\<forall>l\<in>set ls. startsWith '' '' l \<Longrightarrow> linesToInsert ls = map substring1 ls"
  by (induction ls) (auto simp: startsWith_def prefix_def)

lemma sortedHunks_single: "sortedHunks [h] = [h]"
  by (simp add: sortedHunks_def)

text \<open>
  Claim C8. For every change of kind \<open>file\<close> with a single hunk whose body has only
  context lines, where the hunk starts at line 1 or later, \<open>oldLineCount\<close> is the number of
  body lines and the texts of the body lines are the original lines of the hunk's range (so
  the range lies within the original), \<open>applyPatchToContent\<close> returns the original content.
\<close>

theorem context_only_hunk:
  assumes "fileType change = File" and "hunks change = [h]"
    and "1 \<le> oldStartLine h"
    and "\<forall>l\<in>set (jsplit [nl] (content h)). startsWith '' '' l"
    and "oldLineCount h = int (length (jsplit [nl] (content h)))"
    and "map substring1 (jsplit [nl] (content h)) =
         take (nat (oldLineCount h)) (drop (nat (oldStartLine h - 1)) (jsplit [nl] originalContent))"
  shows "applyPatchToContent originalContent change = originalContent"
proof -
  define ls where "ls = jsplit [nl] originalContent"
  define i where "i = nat (oldStartLine h - 1)"
  define c where "c = length (jsplit [nl] (content h))"
  have ins: "linesToInsert (jsplit [nl] (content h)) = take c (drop i ls)"
    using assms(4,5,6) by (simp add: linesToInsert_context ls_def i_def c_def)
  have "length (map substring1 (jsplit [nl] (content h))) = length (take c (drop i ls))"
    using assms(5,6) by (simp add: ls_def i_def c_def)
  then have "c \<le> length ls - i"
    by (simp add: c_def min_def split: if_splits)
  moreover have "0 < c"
    by (simp add: c_def)
  ultimately have le: "i + c \<le> length ls"
    by arith
  have "applyHunk ls h = splice ls (int i) (int c) (take c (drop i ls))"
    using assms(3,5) by (simp add: applyHunk_def ins i_def c_def)
  also have "\<dots> = take i ls @ take c (drop i ls) @ drop (i + c) ls"
    using le by (rule splice_in_range)
  also have "\<dots> = ls"
    by (metis append_take_drop_id drop_drop add.commute)
  finally have "applyHunk ls h = ls" .
  then show ?thesis
    using assms(2) by (simp add: applyPatchToContent_def sortedHunks_single ls_def join_jsplit)
qed

theorem context_only_hunk_witness:
  "applyPatchToContent ''a\<newline>b\<newline>c\<newline>d\<newline>''
     \<lparr>filePath = ''f.txt'', fileType = File, isNew = False, isDeleted = False,
      hunks = [\<lparr>oldStartLine = 2, oldLineCount = 2, newStartLine = 2, newLineCount = 2,
                content = '' b\<newline> c''\<rparr>]\<rparr>
   = ''a\<newline>b\<newline>c\<newline>d\<newline>''"
proof -
  let ?h = "\<lparr>oldStartLine = 2, oldLineCount = 2, newStartLine = 2, newLineCount = 2,
                content = '' b\<newline> c''\<rparr>"
  let ?change = "\<lparr>filePath = ''f.txt'', fileType = File, isNew = False, isDeleted = False,
      hunks = [?h]\<rparr>"
  have 1: "fileType ?change = File" by simp
  have 2: "hunks ?change = [?h]" by simp
  have 3: "1 \<le> oldStartLine ?h" by simp
  have 4: "\<forall>l\<in>set (jsplit [nl] (content ?h)). startsWith '' '' l"
    by code_simp
  have 5: "oldLineCount ?h = int (length (jsplit [nl] (content ?h)))"
    by code_simp
  have 6: "map substring1 (jsplit [nl] (content ?h)) =
         take (nat (oldLineCount ?h)) (drop (nat (oldStartLine ?h - 1)) (jsplit [nl] ''a\<newline>b\<newline>c\<newline>d\<newline>''))"
    by code_simp
  show ?thesis
    using context_only_hunk [OF 1 2 3 4 5 6] .
qed

lemma inRange_le: "inRange len pos hs \<Longrightarrow> pos \<le> len"
  by (induction hs arbitrary: pos) force+

lemma foldl_applyHunk_rev:
  "inRange (length ls) pos hs \<Longrightarrow> foldl applyHunk ls (rev hs) = take pos ls @ prescribed ls pos hs"
proof (induction hs arbitrary: pos)
  case Nil
  then show ?case by simp
next
  case (Cons h hs)
  define i where "i = nat (oldStartLine h - 1)"
  define c where "c = nat (oldLineCount h)"
  define R where "R = linesToInsert (jsplit [nl] (content h))"
  define P where "P = prescribed ls (i + c) hs"
  from Cons.prems have pos: "pos \<le> i" and i: "oldStartLine h - 1 = int i"
    and c: "oldLineCount h = int c"
    and rest: "inRange (length ls) (i + c) hs"
    by (auto simp: i_def c_def nat_add_distrib)
  have len: "i + c \<le> length ls"
    using rest by (rule inRange_le)
  have IH: "foldl applyHunk ls (rev hs) = take (i + c) ls @ P"
    using Cons.IH [OF rest] by (simp add: P_def)
  have "foldl applyHunk ls (rev (h # hs)) = applyHunk (take (i + c) ls @ P) h"
    by (simp add: IH)
  also have "\<dots> = splice (take (i + c) ls @ P) (int i) (int c) R"
    by (simp add: applyHunk_def i c R_def)
  also have "\<dots> = take i (take (i + c) ls @ P) @ R @ drop (i + c) (take (i + c) ls @ P)"
    using len by (intro splice_in_range) simp
  also have "\<dots> = take i ls @ R @ P"
    using len by (simp add: min_def)
  also have "take i ls = take pos ls @ take (i - pos) (drop pos ls)"
    using pos by (metis take_add le_add_diff_inverse)
  finally have calc: "foldl applyHunk ls (rev (h # hs)) =
      (take pos ls @ take (i - pos) (drop pos ls)) @ R @ P" .
  have e: "nat (oldStartLine h - 1 + oldLineCount h) = i + c"
    using Cons.prems by (simp add: i_def c_def nat_add_distrib)
  have "prescribed ls pos (h # hs) = take (i - pos) (drop pos ls) @ R @ P"
    by (simp add: e P_def R_def i_def [symmetric])
  with calc show ?case
    by simp
qed

lemma sort_key_neg_rev:
  fixes f :: "'a \<Rightarrow> int"
  assumes "distinct (map f xs)"
  shows "sort_key (\<lambda>x. - f x) xs = rev (sort_key f xs)"
proof -
  let ?g = "\<lambda>x. - f x"
  have inj: "inj_on ?g (set xs)"
    using assms by (auto simp: distinct_map inj_on_def)
  have d1: "distinct (map ?g (sort_key ?g xs))"
    using inj assms by (simp add: distinct_map)
  have d2: "distinct (map ?g (rev (sort_key f xs)))"
    using inj assms by (simp add: distinct_map)
  have s1: "sorted (map ?g (sort_key ?g xs))"
    by simp
  have "sorted (map f (sort_key f xs))" by simp
  then have s2: "sorted (map ?g (rev (sort_key f xs)))"
    by (simp add: sorted_map rev_map sorted_wrt_rev)
  have "map ?g (sort_key ?g xs) = map ?g (rev (sort_key f xs))"
    using d1 d2 s1 s2 by (intro sorted_distinct_set_unique) auto
  then show ?thesis
    using inj by (subst (asm) inj_on_map_eq_map) auto
qed

text \<open>
  Claim C1. \<open>applyPatchToContent\<close> processes the hunks in descending order of
  \<open>oldStartLine\<close>, from the bottom of the file upward. When the hunks have distinct start
  lines and, taken in ascending order, lie in the original file without overlapping, every
  splice happens at an index of the original numbering that is still valid, and the result
  is what per-hunk splicing against the original line numbering prescribes. In particular,
  with a hunk at line 2 and a hunk at line 10 of a file of 20 lines, the hunk at line 10 is
  applied first.
\<close>

theorem bottom_up_application:
  "sorted_wrt (\<lambda>a b. oldStartLine b \<le> oldStartLine a) (sortedHunks (hunks change))
   \<and> applyPatchToContent originalContent change =
       join [nl] (foldl applyHunk (jsplit [nl] originalContent) (sortedHunks (hunks change)))
   \<and> (distinct (map oldStartLine (hunks change)) \<and>
       inRange (length (jsplit [nl] originalContent)) 0 (sort_key oldStartLine (hunks change))
       \<longrightarrow> sortedHunks (hunks change) = rev (sort_key oldStartLine (hunks change))
         \<and> applyPatchToContent originalContent change =
             join [nl] (prescribed (jsplit [nl] originalContent) 0
               (sort_key oldStartLine (hunks change))))"
proof -
  have "sorted (map (\<lambda>h. - oldStartLine h) (sortedHunks (hunks change)))"
    unfolding sortedHunks_def by simp
  then have desc: "sorted_wrt (\<lambda>a b. oldStartLine b \<le> oldStartLine a) (sortedHunks (hunks change))"
    by (simp add: sorted_map)
  have run: "applyPatchToContent originalContent change =
      join [nl] (foldl applyHunk (jsplit [nl] originalContent) (sortedHunks (hunks change)))"
    by (simp add: applyPatchToContent_def)
  have valid: "sortedHunks (hunks change) = rev (sort_key oldStartLine (hunks change))
      \<and> applyPatchToContent originalContent change =
          join [nl] (prescribed (jsplit [nl] originalContent) 0
            (sort_key oldStartLine (hunks change)))"
    if d: "distinct (map oldStartLine (hunks change))"
      and r: "inRange (length (jsplit [nl] originalContent)) 0
        (sort_key oldStartLine (hunks change))"
  proof -
    have order: "sortedHunks (hunks change) = rev (sort_key oldStartLine (hunks change))"
      unfolding sortedHunks_def using d by (rule sort_key_neg_rev)
    have "foldl applyHunk (jsplit [nl] originalContent) (sortedHunks (hunks change)) =
        prescribed (jsplit [nl] originalContent) 0 (sort_key oldStartLine (hunks change))"
      using foldl_applyHunk_rev [OF r] by (simp add: order)
    with order run show ?thesis
      by simp
  qed
  from desc run valid show ?thesis
    by blast
qed

theorem bottom_up_application_witness:
  "sortedHunks
     [\<lparr>oldStartLine = 2, oldLineCount = 1, newStartLine = 2, newLineCount = 3, content = '' b\<newline>+X\<newline>+Y''\<rparr>,
      \<lparr>oldStartLine = 10, oldLineCount = 2, newStartLine = 12, newLineCount = 1, content = '' j\<newline>-k''\<rparr>]
   = [\<lparr>oldStartLine = 10, oldLineCount = 2, newStartLine = 12, newLineCount = 1, content = '' j\<newline>-k''\<rparr>,
      \<lparr>oldStartLine = 2, oldLineCount = 1, newStartLine = 2, newLineCount = 3, content = '' b\<newline>+X\<newline>+Y''\<rparr>]
   \<and> length (jsplit [nl] ''a\<newline>b\<newline>c\<newline>d\<newline>e\<newline>f\<newline>g\<newline>h\<newline>i\<newline>j\<newline>k\<newline>l\<newline>m\<newline>n\<newline>o\<newline>p\<newline>q\<newline>r\<newline>s\<newline>t'') = 20
   \<and> applyPatchToContent ''a\<newline>b\<newline>c\<newline>d\<newline>e\<newline>f\<newline>g\<newline>h\<newline>i\<newline>j\<newline>k\<newline>l\<newline>m\<newline>n\<newline>o\<newline>p\<newline>q\<newline>r\<newline>s\<newline>t''
     \<lparr>filePath = ''f.txt'', fileType = File, isNew = False, isDeleted = False,
      hunks =
        [\<lparr>oldStartLine = 2, oldLineCount = 1, newStartLine = 2, newLineCount = 3, content = '' b\<newline>+X\<newline>+Y''\<rparr>,
         \<lparr>oldStartLine = 10, oldLineCount = 2, newStartLine = 12, newLineCount = 1, content = '' j\<newline>-k''\<rparr>]\<rparr>
   = ''a\<newline>b\<newline>X\<newline>Y\<newline>c\<newline>d\<newline>e\<newline>f\<newline>g\<newline>h\<newline>i\<newline>j\<newline>l\<newline>m\<newline>n\<newline>o\<newline>p\<newline>q\<newline>r\<newline>s\<newline>t''"
proof -
  let ?h2 = "\<lparr>oldStartLine = 2, oldLineCount = 1, newStartLine = 2, newLineCount = 3, content = '' b\<newline>+X\<newline>+Y''\<rparr>"
  let ?h10 = "\<lparr>oldStartLine = 10, oldLineCount = 2, newStartLine = 12, newLineCount = 1, content = '' j\<newline>-k''\<rparr>"
  let ?change = "\<lparr>filePath = ''f.txt'', fileType = File, isNew = False, isDeleted = False, hunks = [?h2, ?h10]\<rparr>"
  let ?orig = "''a\<newline>b\<newline>c\<newline>d\<newline>e\<newline>f\<newline>g\<newline>h\<newline>i\<newline>j\<newline>k\<newline>l\<newline>m\<newline>n\<newline>o\<newline>p\<newline>q\<newline>r\<newline>s\<newline>t''"
  have first: "sortedHunks [?h2, ?h10] = [?h10, ?h2]"
    by code_simp
  have len: "length (jsplit [nl] ?orig) = 20"
    by code_simp
  have 1: "distinct (map oldStartLine (hunks ?change))"
    by code_simp
  have 2: "inRange (length (jsplit [nl] ?orig)) 0 (sort_key oldStartLine (hunks ?change))"
    by code_simp
  have 3: "join [nl] (prescribed (jsplit [nl] ?orig) 0 (sort_key oldStartLine (hunks ?change))) =
    ''a\<newline>b\<newline>X\<newline>Y\<newline>c\<newline>d\<newline>e\<newline>f\<newline>g\<newline>h\<newline>i\<newline>j\<newline>l\<newline>m\<newline>n\<newline>o\<newline>p\<newline>q\<newline>r\<newline>s\<newline>t''"
    by code_simp
  have "applyPatchToContent ?orig ?change =
      join [nl] (prescribed (jsplit [nl] ?orig) 0 (sort_key oldStartLine (hunks ?change)))"
    using bottom_up_application [of ?change ?orig] 1 2 by blast
  then have "applyPatchToContent ?orig ?change =
    ''a\<newline>b\<newline>X\<newline>Y\<newline>c\<newline>d\<newline>e\<newline>f\<newline>g\<newline>h\<newline>i\<newline>j\<newline>l\<newline>m\<newline>n\<newline>o\<newline>p\<newline>q\<newline>r\<newline>s\<newline>t''"
    by (rule trans [OF _ 3])
  with first len show ?thesis
    by (intro conjI)
qed

text \<open>
  In the same example, splicing in ascending order would use the start line of the second
  hunk after the first hunk has shifted the lines, and gives another text.
\<close>

lemma ascending_order_differs:
  "join [nl] (foldl applyHunk
     (jsplit [nl] ''a\<newline>b\<newline>c\<newline>d\<newline>e\<newline>f\<newline>g\<newline>h\<newline>i\<newline>j\<newline>k\<newline>l\<newline>m\<newline>n\<newline>o\<newline>p\<newline>q\<newline>r\<newline>s\<newline>t'')
     [\<lparr>oldStartLine = 2, oldLineCount = 1, newStartLine = 2, newLineCount = 3, content = '' b\<newline>+X\<newline>+Y''\<rparr>,
      \<lparr>oldStartLine = 10, oldLineCount = 2, newStartLine = 12, newLineCount = 1, content = '' j\<newline>-k''\<rparr>])
   = ''a\<newline>b\<newline>X\<newline>Y\<newline>c\<newline>d\<newline>e\<newline>f\<newline>g\<newline>j\<newline>j\<newline>k\<newline>l\<newline>m\<newline>n\<newline>o\<newline>p\<newline>q\<newline>r\<newline>s\<newline>t''"
  by code_simp

text \<open>
  Claim C5, as stated: \<open>applyPatchToContent\<close> called on a change of kind \<open>directory\<close> or
  \<open>binary\<close>, or on a deletion without hunks, is rejected. It is not: the function has no
  failure path and returns content in all three cases.
\<close>

theorem apply_rejects_counterexample:
  "applyPatchToContent ''a\<newline>b''
     \<lparr>filePath = ''d'', fileType = Directory, isNew = False, isDeleted = False, hunks = []\<rparr> = ''a\<newline>b''
   \<and> applyPatchToContent ''a\<newline>b''
     \<lparr>filePath = ''d'', fileType = Binary, isNew = False, isDeleted = False, hunks = []\<rparr> = ''a\<newline>b''
   \<and> applyPatchToContent ''a\<newline>b''
     \<lparr>filePath = ''d'', fileType = File, isNew = False, isDeleted = True, hunks = []\<rparr> = ''a\<newline>b''"
  by code_simp

text \<open>
  Claim C5, amended. \<open>applyPatchToContent\<close> has no guard: it reads neither \<open>fileType\<close>
  nor \<open>isNew\<close> nor \<open>isDeleted\<close>, so its result depends on the original content and the
  hunks only, and for a change without hunks (which is what the parser emits for the kinds
  \<open>directory\<close> and \<open>binary\<close>, and for a deletion whose segment has no hunk) it returns the
  original content unchanged. Keeping such changes away from it is left to the caller.
\<close>

theorem apply_ignores_kind:
  "applyPatchToContent originalContent (change\<lparr>fileType := k, isNew := n, isDeleted := d\<rparr>)
     = applyPatchToContent originalContent change
   \<and> (hunks change = [] \<longrightarrow> applyPatchToContent originalContent change = originalContent)"
  by (simp add: applyPatchToContent_def sortedHunks_def join_jsplit)

theorem apply_ignores_kind_witness:
  "hunks \<lparr>filePath = ''x.png'', fileType = Binary, isNew = False, isDeleted = False, hunks = []\<rparr> = []
   \<and> applyPatchToContent ''a\<newline>b'' \<lparr>filePath = ''x.png'', fileType = Binary, isNew = False, isDeleted = False, hunks = []\<rparr> = ''a\<newline>b''"
  using apply_ignores_kind [where originalContent = "''a\<newline>b''" and change = "\<lparr>filePath = ''x.png'', fileType = Binary, isNew = False, isDeleted = False, hunks = []\<rparr>"]
  by simp

section \<open>The parser: splitting a text that goes on after its last line feed\<close>

lemma jsplit_no_sep: "\<not> sublist sep t \<Longrightarrow> jsplit sep t = [t]"
proof (induction t)
  case Nil
  then show ?case by simp
next
  case (Cons c cs)
  then have "\<not> prefix sep (c # cs)" and "\<not> sublist sep cs"
    by (auto simp: sublist_Cons_right)
  with Cons.IH show ?case by simp
qed

lemma prefix_before_nl:
  assumes "nl \<notin> set sep"
  shows "prefix sep (x @ nl # t) \<longleftrightarrow> prefix sep x"
proof
  assume "prefix sep (x @ nl # t)"
  then consider "prefix sep x" | us where "sep = x @ us" "prefix us (nl # t)"
    by (auto simp: prefix_append)
  then show "prefix sep x"
  proof cases
    case 1
    then show ?thesis .
  next
    case 2
    with assms show ?thesis
      by (cases us) auto
  qed
qed auto

lemma jsplit_last_line:
  assumes "nl \<notin> set sep" and "\<not> sublist sep t"
  shows "\<exists>ps y. jsplit sep (x @ [nl]) = ps @ [y @ [nl]] \<and>
                jsplit sep (x @ nl # t) = ps @ [y @ nl # t]"
  using assms
proof (induction sep x rule: jsplit.induct)
  case (1 sep)
  then have ne: "sep \<noteq> []"
    by auto
  with 1 have "\<not> prefix sep [nl]" and "\<not> prefix sep (nl # t)"
    using prefix_before_nl [of sep "[]"] by auto
  with 1 have "jsplit sep ([] @ [nl]) = [] @ [[] @ [nl]]"
    and "jsplit sep ([] @ nl # t) = [] @ [[] @ nl # t]"
    by (simp_all add: jsplit_no_sep)
  then show ?case
    by blast
next
  case (2 sep c cs)
  from 2(4) have ne: "sep \<noteq> []"
    by auto
  have p1: "prefix sep ((c # cs) @ [nl]) \<longleftrightarrow> prefix sep (c # cs)"
    and p2: "prefix sep ((c # cs) @ nl # t) \<longleftrightarrow> prefix sep (c # cs)"
    using 2(3) by (rule prefix_before_nl)+
  show ?case
  proof (cases "prefix sep (c # cs)")
    case True
    then have le: "length sep \<le> length (c # cs)"
      by (rule prefix_length_le)
    from 2(1) [OF _ 2(3,4)] True ne obtain ps y where
      a: "jsplit sep (drop (length sep) (c # cs) @ [nl]) = ps @ [y @ [nl]]" and
      b: "jsplit sep (drop (length sep) (c # cs) @ nl # t) = ps @ [y @ nl # t]"
      by blast
    have d: "drop (length sep) ((c # cs) @ w) = drop (length sep) (c # cs) @ w" for w
      using le by (simp only: drop_append diff_is_0_eq' drop_0)
    have "jsplit sep ((c # cs) @ [nl]) = [] # jsplit sep (drop (length sep) ((c # cs) @ [nl]))"
      using True ne p1 by (simp del: drop_Suc_Cons)
    then have a': "jsplit sep ((c # cs) @ [nl]) = ([] # ps) @ [y @ [nl]]"
      unfolding d a by simp
    have "jsplit sep ((c # cs) @ nl # t) = [] # jsplit sep (drop (length sep) ((c # cs) @ nl # t))"
      using True ne p2 by (simp del: drop_Suc_Cons)
    then have "jsplit sep ((c # cs) @ nl # t) = ([] # ps) @ [y @ nl # t]"
      unfolding d b by simp
    with a' show ?thesis
      by blast
  next
    case False
    from 2(2) [OF _ 2(3,4)] False obtain ps y where
      a: "jsplit sep (cs @ [nl]) = ps @ [y @ [nl]]" and
      b: "jsplit sep (cs @ nl # t) = ps @ [y @ nl # t]"
      by blast
    have a': "jsplit sep ((c # cs) @ [nl]) = cons_first c (ps @ [y @ [nl]])"
      using False p1 a by simp
    have b': "jsplit sep ((c # cs) @ nl # t) = cons_first c (ps @ [y @ nl # t])"
      using False p2 b by simp
    show ?thesis
    proof (cases ps)
      case Nil
      with a' b' have "jsplit sep ((c # cs) @ [nl]) = [] @ [(c # y) @ [nl]]"
        and "jsplit sep ((c # cs) @ nl # t) = [] @ [(c # y) @ nl # t]"
        by simp_all
      then show ?thesis
        by blast
    next
      case (Cons q qs)
      with a' b' have "jsplit sep ((c # cs) @ [nl]) = ((c # q) # qs) @ [y @ [nl]]"
        and "jsplit sep ((c # cs) @ nl # t) = ((c # q) # qs) @ [y @ nl # t]"
        by simp_all
      then show ?thesis
        by blast
    qed
  qed
qed

lemma parseSegment_last_line: "nl \<notin> set t \<Longrightarrow> parseSegment (s @ nl # t) = parseSegment (s @ [nl])"
  by (simp add: parseSegment_def jsplit_nl_append jsplit_no_nl)

lemma parseSegments_last:
  "parseSegment seg = parseSegment seg' \<Longrightarrow>
     parseSegments (segs @ [seg]) = parseSegments (segs @ [seg'])"
  by (induction segs) (simp_all split: sum.splits)

lemma parsePatchFile_last_line:
  assumes "nl \<notin> set t" and "\<not> str_includes ''diff --git'' t"
  shows "parsePatchFile (x @ nl # t) = parsePatchFile (x @ [nl])"
proof -
  have "nl \<notin> set ''diff --git''"
    by simp
  moreover have "\<not> sublist ''diff --git'' t"
    using assms(2) by (induction t) (auto simp: sublist_Cons_right)
  ultimately obtain ps y where
    a: "jsplit ''diff --git'' (x @ [nl]) = ps @ [y @ [nl]]" and
    b: "jsplit ''diff --git'' (x @ nl # t) = ps @ [y @ nl # t]"
    using jsplit_last_line by blast
  have seg: "parseSegment (y @ nl # t) = parseSegment (y @ [nl])"
    using assms(1) by (rule parseSegment_last_line)
  show ?thesis
  proof (cases ps)
    case Nil
    with a b show ?thesis
      by (simp add: parsePatchFile_def)
  next
    case (Cons q qs)
    with a b parseSegments_last [OF seg, of qs] show ?thesis
      by (simp add: parsePatchFile_def)
  qed
qed

section \<open>The parser: the last line of a segment\<close>

text \<open>
  Claim C10. \<open>parsePatchFile\<close> removes the last element of the lines of every segment
  before it looks at the path line, the header or the hunks. So a segment is parsed from
  the lines before its last line feed: what follows the last line feed (the last line of a
  segment that does not end with a line feed, for a regular file the last body line of the
  last hunk) does not reach the record, and for a segment that ends with a line feed only
  the empty string after it is removed. For the whole text: what follows the last line feed
  of the input does not change the result, as long as it holds no file boundary marker.
\<close>

theorem pop_discards_last:
  assumes "nl \<notin> set t"
  shows "jsplit [nl] (s @ nl # t) = jsplit [nl] s @ [t]
    \<and> parseSegment (s @ nl # t) = parseLines (jsplit [nl] s)
    \<and> parseSegment (s @ nl # t) = parseSegment (s @ [nl])
    \<and> (\<not> str_includes ''diff --git'' t \<longrightarrow>
         parsePatchFile (x @ nl # t) = parsePatchFile (x @ [nl]))"
  using assms parsePatchFile_last_line [of t x]
  by (simp add: parseSegment_def jsplit_nl_append jsplit_no_nl)

theorem pop_discards_last_witness:
  "nl \<notin> set ''+d'' \<and> \<not> str_includes ''diff --git'' ''+d''
   \<and> parsePatchFile ''diff --git a/f b/f\<newline>@@ -1 +1,2 @@\<newline> a\<newline>+d'' =
      parsePatchFile ''diff --git a/f b/f\<newline>@@ -1 +1,2 @@\<newline> a\<newline>''
   \<and> parsePatchFile ''diff --git a/f b/f\<newline>@@ -1 +1,2 @@\<newline> a\<newline>+d'' =
      Inr [\<lparr>filePath = ''f'', fileType = File, isNew = False, isDeleted = False,
            hunks = [\<lparr>oldStartLine = 1, oldLineCount = 1, newStartLine = 1, newLineCount = 2,
                      content = '' a''\<rparr>]\<rparr>]"
proof -
  have 1: "nl \<notin> set ''+d''"
    by code_simp
  have 2: "\<not> str_includes ''diff --git'' ''+d''"
    by code_simp
  have 3: "parsePatchFile ''diff --git a/f b/f\<newline>@@ -1 +1,2 @@\<newline> a\<newline>+d'' =
      Inr [\<lparr>filePath = ''f'', fileType = File, isNew = False, isDeleted = False,
            hunks = [\<lparr>oldStartLine = 1, oldLineCount = 1, newStartLine = 1, newLineCount = 2,
                      content = '' a''\<rparr>]\<rparr>]"
    by code_simp
  have "parsePatchFile (''diff --git a/f b/f\<newline>@@ -1 +1,2 @@\<newline> a'' @ nl # ''+d'') =
     parsePatchFile (''diff --git a/f b/f\<newline>@@ -1 +1,2 @@\<newline> a'' @ [nl])"
    using pop_discards_last [OF 1, of "[]" "''diff --git a/f b/f\<newline>@@ -1 +1,2 @@\<newline> a''"] 2
    by blast
  then have 4: "parsePatchFile ''diff --git a/f b/f\<newline>@@ -1 +1,2 @@\<newline> a\<newline>+d'' =
      parsePatchFile ''diff --git a/f b/f\<newline>@@ -1 +1,2 @@\<newline> a\<newline>''"
    by simp
  from 1 2 3 4 show ?thesis
    by (intro conjI)
qed

section \<open>The parser: when it raises\<close>

lemma parseSegment_raises: "parseSegment seg = Inl TypeError \<longleftrightarrow> nl \<notin> set seg"
proof
  assume "nl \<notin> set seg"
  then show "parseSegment seg = Inl TypeError"
    by (simp add: parseSegment_def parseLines_def jsplit_no_nl)
next
  assume r: "parseSegment seg = Inl TypeError"
  show "nl \<notin> set seg"
  proof
    assume "nl \<in> set seg"
    then obtain a b where "seg = a @ nl # b"
      by (auto dest: split_list)
    then have "butlast (jsplit [nl] seg) \<noteq> []"
      by (simp add: jsplit_nl_append butlast_append)
    with r show False
      by (auto simp: parseSegment_def parseLines_def split: list.splits option.splits prod.splits if_splits)
  qed
qed

lemma parseSegments_raises:
  "(\<exists>fcs. parseSegments segs = Inr fcs) \<longleftrightarrow> (\<forall>seg\<in>set segs. nl \<in> set seg)"
proof (induction segs)
  case Nil
  then show ?case by simp
next
  case (Cons seg segs)
  have "(\<exists>r. parseSegment seg = Inr r) \<longleftrightarrow> nl \<in> set seg"
    using parseSegment_raises [of seg] by (cases "parseSegment seg") (auto intro: error.exhaust)
  with Cons show ?case
    by (auto split: sum.splits)
qed

lemma parsePatchFile_returns:
  "(\<exists>fcs. parsePatchFile patchContent = Inr fcs) \<longleftrightarrow>
     (\<forall>seg\<in>set (drop 1 (jsplit ''diff --git'' patchContent)). nl \<in> set seg)"
  by (simp add: parsePatchFile_def parseSegments_raises)

lemma unmatched_path_dropped:
  "filePathMatch line0 = None \<Longrightarrow> parseLines (line0 # others) = Inr None"
  by (simp add: parseLines_def)

text \<open>
  Claim C6 says that \<open>parsePatchFile\<close> never raises, whatever the text. A segment that
  holds no line feed has no lines left after \<open>lines.pop()\<close>, and reading the path line of
  such a segment raises: the segment is not dropped, the whole call fails. The shortest
  such text is one boundary marker and one path line without a line feed after it.
\<close>

theorem parse_raises:
  "parsePatchFile ''diff --git a/x b/x'' = Inl TypeError"
  by code_simp

section \<open>The parser: lines that begin with the hunk marker\<close>

text \<open>
  One iteration on a line that begins with \<open>@@\<close> and fails the header pattern: the open
  hunk, if there is one, is pushed, and it stays the current hunk with \<open>inHunk\<close> still set.
  The text of the line is not used. With no hunk open the state does not change.
\<close>

lemma malformed_marker_step:
  "startsWith ''@@'' line \<Longrightarrow> hunkHeaderMatch line = None \<Longrightarrow> hunkStep st line = closeHunk st"
  by (cases "closeHunk st") (simp add: hunkStep_def)

text \<open>
  Claim C7. A line that begins with \<open>@@\<close> and fails the header pattern is treated as
  ordinary body content of the open hunk: it is added to the body of that hunk, which is
  neither closed nor duplicated. The code does not do this. In the text below, the hunk
  \<open>@@ -1,1 +1,1 @@\<close> is open with the body line \<open>-x\<close> when the line \<open>@@ bad\<close>
  comes: the hunk is pushed before the pattern is tried, it stays current, the line
  \<open>@@ bad\<close> reaches no body, the next line \<open>+y\<close> is glued to \<open>-x\<close> because the line
  feed between them was trimmed for the push, and the hunk is pushed a second time at the
  end. A header that matches, in the same place, pushes the open hunk once.
\<close>

theorem malformed_marker_duplicates_hunk:
 "parsePatchFile ''diff --git a/f b/f\<newline>@@ -1,1 +1,1 @@\<newline>-x\<newline>@@ bad\<newline>+y\<newline>'' =
  Inr [\<lparr>filePath = ''f'', fileType = File, isNew = False, isDeleted = False,
         hunks =
           [\<lparr>oldStartLine = 1, oldLineCount = 1, newStartLine = 1,
               newLineCount = 1, content = ''-x''\<rparr>,
            \<lparr>oldStartLine = 1, oldLineCount = 1, newStartLine = 1,
               newLineCount = 1, content = ''-x+y''\<rparr>]\<rparr>]"
  by code_simp

section \<open>The parser: no line accounting\<close>







section \<open>The parser: the flags of a record\<close>







end
